theory Spec2Isabelle
  imports Main
begin

section \<open>JavaScript values, objects and the store\<close>

text \<open>
  The module \<^verbatim>\<open>lib/compute/autoscaler.js\<close> passes objects around by reference and
  writes properties onto them, so objects live in a store and a value of object type is
  a reference into it. Numbers are only ever tested for truthiness here, so they are
  integers; accessor properties, frozen objects and inherited properties are not
  modelled (the code reads and writes the plain data properties \<^verbatim>\<open>name\<close>,
  \<^verbatim>\<open>zone\<close> and \<^verbatim>\<open>metadata\<close>).
\<close>

type_synonym addr = nat

datatype jsval = Undefined | Null | Bool bool | Num int | Str string | Ref addr

text \<open>
  What an object is an instance of. A function made by \<^verbatim>\<open>f.bind(obj)\<close> remembers
  the object it is bound to and the method it wraps.
\<close>

datatype kind =
    PlainObject
  | FunctionObject
  | BoundFunction addr string
  | ZoneObject
  | OperationObject
  | AutoscalerObject

record obj =
  kind :: kind
  props :: "string \<rightharpoonup> jsval"

text \<open>
  Modelled from the spec: \<^verbatim>\<open>util.noop\<close> of the missing \<^verbatim>\<open>lib/common/util.js\<close>
  is "a no-op function". So \<^verbatim>\<open>callback || util.noop\<close> is either the caller's
  value or that function.
\<close>

datatype callee = Noop | Given jsval

text \<open>
  The two anonymous functions of the module, as closures: each captures the local
  variables \<^verbatim>\<open>zone\<close> and \<^verbatim>\<open>callback\<close> of the call that created it.
\<close>

datatype continuation =
    DeleteResponse jsval callee
  | SetMetadataResponse jsval callee

text \<open>
  The options literal given to \<^verbatim>\<open>zone.request\<close>. Nothing else holds a reference to
  it, so it is a value; its \<^verbatim>\<open>json\<close> field is the reference to the body.
\<close>

record reqOpts =
  "method" :: string
  uri :: string
  qs :: "(string \<times> jsval) list"
  json :: jsval

text \<open>
  What leaves the module: a generic delete handed to the base class, a request handed to
  the zone, a call of the caller's function. The caller's function is code outside this
  module; its call is recorded with the arguments it receives.
\<close>

datatype event =
    ServiceObjectDelete addr continuation
  | ZoneRequest addr reqOpts continuation
  | Invoke jsval "jsval list"

record state =
  heap :: "addr \<Rightarrow> obj"
  next_addr :: addr
  trace :: "event list"

datatype js_error = TypeError

text \<open>A call either returns a value or throws; both leave a store behind.\<close>

datatype 'a completion = Normal 'a state | Throw js_error state

fun state_of :: "'a completion \<Rightarrow> state" where
  "state_of (Normal v s) = s"
| "state_of (Throw e s) = s"

fun throws :: "'a completion \<Rightarrow> bool" where
  "throws (Normal v s) = False"
| "throws (Throw e s) = True"

fun value_of :: "'a completion \<Rightarrow> 'a option" where
  "value_of (Normal v s) = Some v"
| "value_of (Throw e s) = None"

fun truthy :: "jsval \<Rightarrow> bool" where
  "truthy Undefined = False"
| "truthy Null = False"
| "truthy (Bool b) = b"
| "truthy (Num n) = (n \<noteq> 0)"
| "truthy (Str s) = (s \<noteq> [])"
| "truthy (Ref a) = True"

definition get_own :: "state \<Rightarrow> addr \<Rightarrow> string \<Rightarrow> jsval" where
  "get_own s a k = (case props (heap s a) k of None \<Rightarrow> Undefined | Some v \<Rightarrow> v)"

text \<open>Reading \<^verbatim>\<open>v.k\<close>: a TypeError on \<^verbatim>\<open>undefined\<close> and \<^verbatim>\<open>null\<close>.\<close>

fun get_prop :: "state \<Rightarrow> jsval \<Rightarrow> string \<Rightarrow> js_error + jsval" where
  "get_prop s Undefined k = Inl TypeError"
| "get_prop s Null k = Inl TypeError"
| "get_prop s (Ref a) k = Inr (get_own s a k)"
| "get_prop s (Bool b) k = Inr Undefined"
| "get_prop s (Num n) k = Inr Undefined"
| "get_prop s (Str t) k = Inr Undefined"

definition put_own :: "addr \<Rightarrow> string \<Rightarrow> jsval \<Rightarrow> state \<Rightarrow> state" where
  "put_own a k v s =
     s\<lparr>heap := (heap s)(a := (heap s a)\<lparr>props := (props (heap s a))(k \<mapsto> v)\<rparr>)\<rparr>"

fun callable :: "kind \<Rightarrow> bool" where
  "callable FunctionObject = True"
| "callable (BoundFunction a m) = True"
| "callable PlainObject = False"
| "callable ZoneObject = False"
| "callable OperationObject = False"
| "callable AutoscalerObject = False"

text \<open>
  The own properties \<^verbatim>\<open>name\<close> and \<^verbatim>\<open>length\<close> of a function, bound or not,
  are not writable.
\<close>

definition read_only :: "kind \<Rightarrow> string \<Rightarrow> bool" where
  "read_only c k = (callable c \<and> (k = ''name'' \<or> k = ''length''))"

text \<open>
  Writing \<^verbatim>\<open>v.k = x\<close>. The file is in strict mode (\<^verbatim>\<open>'use strict'\<close>, line 21),
  where creating a property on a primitive is a TypeError, as it is on
  \<^verbatim>\<open>undefined\<close> and \<^verbatim>\<open>null\<close>, and where assigning to a property that is
  not writable is a TypeError too: \<^verbatim>\<open>f.name = x\<close> throws when \<^verbatim>\<open>f\<close> is a
  function.
\<close>

fun put_prop :: "jsval \<Rightarrow> string \<Rightarrow> jsval \<Rightarrow> state \<Rightarrow> js_error + state" where
  "put_prop (Ref a) k v s =
     (if read_only (kind (heap s a)) k then Inl TypeError else Inr (put_own a k v s))"
| "put_prop Undefined k v s = Inl TypeError"
| "put_prop Null k v s = Inl TypeError"
| "put_prop (Bool b) k v s = Inl TypeError"
| "put_prop (Num n) k v s = Inl TypeError"
| "put_prop (Str t) k v s = Inl TypeError"

definition alloc :: "obj \<Rightarrow> state \<Rightarrow> addr \<times> state" where
  "alloc ob s =
     (next_addr s, s\<lparr>heap := (heap s)(next_addr s := ob), next_addr := Suc (next_addr s)\<rparr>)"

definition emit :: "event \<Rightarrow> state \<Rightarrow> state" where
  "emit e s = s\<lparr>trace := trace s @ [e]\<rparr>"

text \<open>
  Calling \<^verbatim>\<open>callback(a, b, c)\<close> after \<^verbatim>\<open>callback = callback || util.noop\<close>:
  the no-op does nothing, a function of the caller is called, anything else is not a
  function.
\<close>

fun invoke :: "callee \<Rightarrow> jsval list \<Rightarrow> state \<Rightarrow> unit completion" where
  "invoke Noop args s = Normal () s"
| "invoke (Given (Ref f)) args s =
     (if callable (kind (heap s f)) then Normal () (emit (Invoke (Ref f) args) s)
      else Throw TypeError s)"
| "invoke (Given Undefined) args s = Throw TypeError s"
| "invoke (Given Null) args s = Throw TypeError s"
| "invoke (Given (Bool b)) args s = Throw TypeError s"
| "invoke (Given (Num n)) args s = Throw TypeError s"
| "invoke (Given (Str t)) args s = Throw TypeError s"

definition or_noop :: "jsval \<Rightarrow> callee" where
  "or_noop callback = (if truthy callback then Given callback else Noop)"

section \<open>The collaborators: zone and base class\<close>

text \<open>
  Modelled from the spec: \<^verbatim>\<open>lib/compute/zone.js\<close> is not among the sources. The zone
  "must expose \<^verbatim>\<open>createAutoscaler(config, callback)\<close>,
  \<^verbatim>\<open>operation(name) -> OperationHandle\<close>, \<^verbatim>\<open>request(options, callback)\<close>, and a
  \<^verbatim>\<open>name\<close> field".
\<close>

definition Zone_methods :: "string list" where
  "Zone_methods = [''createAutoscaler'', ''operation'', ''request'']"

text \<open>
  Modelled from the spec: \<^verbatim>\<open>zone.operation(name)\<close> of the missing
  \<^verbatim>\<open>lib/compute/zone.js\<close>. An Operation is "a handle representing an asynchronous
  server-side mutation, identified by a name", "bound to the parent zone", "created
  fresh on each mutating call that returns one; not deduplicated or cached". Calling the
  method on a value that is not a zone is a TypeError.
\<close>

fun Zone_operation :: "jsval \<Rightarrow> jsval \<Rightarrow> state \<Rightarrow> jsval completion" where
  "Zone_operation (Ref z) name s =
     (if kind (heap s z) = ZoneObject then
        (let (a, s') = alloc \<lparr>kind = OperationObject,
                              props = [''name'' \<mapsto> name, ''parent'' \<mapsto> Ref z]\<rparr> s
         in Normal (Ref a) s')
      else Throw TypeError s)"
| "Zone_operation Undefined name s = Throw TypeError s"
| "Zone_operation Null name s = Throw TypeError s"
| "Zone_operation (Bool b) name s = Throw TypeError s"
| "Zone_operation (Num n) name s = Throw TypeError s"
| "Zone_operation (Str t) name s = Throw TypeError s"

text \<open>
  Modelled from the spec: \<^verbatim>\<open>zone.request(options, callback)\<close> of the missing
  \<^verbatim>\<open>lib/compute/zone.js\<close>, the zone's delegate "for raw HTTP calls". The request and
  the function that will receive its outcome are recorded; the outcome arrives later.
\<close>

fun Zone_request :: "jsval \<Rightarrow> reqOpts \<Rightarrow> continuation \<Rightarrow> state \<Rightarrow> unit completion" where
  "Zone_request (Ref z) opts k s =
     (if kind (heap s z) = ZoneObject then Normal () (emit (ZoneRequest z opts k) s)
      else Throw TypeError s)"
| "Zone_request Undefined opts k s = Throw TypeError s"
| "Zone_request Null opts k s = Throw TypeError s"
| "Zone_request (Bool b) opts k s = Throw TypeError s"
| "Zone_request (Num n) opts k s = Throw TypeError s"
| "Zone_request (Str t) opts k s = Throw TypeError s"

text \<open>
  \<^verbatim>\<open>zone.createAutoscaler.bind(zone)\<close>: reading the method off a value that is not
  a zone gives \<^verbatim>\<open>undefined\<close> (or fails at once on \<^verbatim>\<open>undefined\<close> and
  \<^verbatim>\<open>null\<close>), and \<^verbatim>\<open>.bind\<close> on that is a TypeError.
\<close>

fun bind_method :: "jsval \<Rightarrow> string \<Rightarrow> state \<Rightarrow> jsval completion" where
  "bind_method (Ref z) m s =
     (if kind (heap s z) = ZoneObject \<and> m \<in> set Zone_methods then
        (let (a, s') = alloc \<lparr>kind = BoundFunction z m, props = Map.empty\<rparr> s
         in Normal (Ref a) s')
      else Throw TypeError s)"
| "bind_method Undefined m s = Throw TypeError s"
| "bind_method Null m s = Throw TypeError s"
| "bind_method (Bool b) m s = Throw TypeError s"
| "bind_method (Num n) m s = Throw TypeError s"
| "bind_method (Str t) m s = Throw TypeError s"

text \<open>The configuration literal given to the base constructor.\<close>

record config =
  parent :: jsval
  baseUrl :: string
  id' :: jsval
  createMethod :: jsval
  methods :: jsval

text \<open>
  Modelled from the spec: the constructor of the base class in the missing
  \<^verbatim>\<open>lib/common/service-object.js\<close>. The base "supplies generic
  get/create/delete/exists behavior parameterized by a base URL and an identifier"; the
  handle is "configured" with what the constructor is given, and "no I/O occurs at
  construction".
\<close>

definition ServiceObject :: "addr \<Rightarrow> config \<Rightarrow> state \<Rightarrow> state" where
  "ServiceObject this c s =
     put_own this ''methods'' (methods c)
       (put_own this ''createMethod'' (createMethod c)
         (put_own this ''id'' (id' c)
           (put_own this ''baseUrl'' (Str (baseUrl c))
             (put_own this ''parent'' (parent c) s))))"

text \<open>
  Modelled from the spec: \<^verbatim>\<open>ServiceObject.prototype.delete\<close> of the missing
  \<^verbatim>\<open>lib/common/service-object.js\<close>, "the generic delete" (a \<^verbatim>\<open>DELETE\<close> on the
  resource path). It is recorded with the function that will receive its outcome.
\<close>

definition ServiceObject_delete :: "addr \<Rightarrow> continuation \<Rightarrow> state \<Rightarrow> unit completion" where
  "ServiceObject_delete this k s = Normal () (emit (ServiceObjectDelete this k) s)"

text \<open>
  Modelled from the spec: what the generic \<^verbatim>\<open>getMetadata\<close> of the missing
  \<^verbatim>\<open>lib/common/service-object.js\<close> does with the outcome: it "issues a read of the
  resource's current server-side metadata and stores it on the handle before returning
  it", with the callback shape \<^verbatim>\<open>(error, primaryResult, rawResponse)\<close>. This is the
  only write to the handle that the spec gives to the delegated operations.
\<close>

definition ServiceObject_getMetadata_response ::
    "addr \<Rightarrow> callee \<Rightarrow> jsval \<Rightarrow> jsval \<Rightarrow> state \<Rightarrow> unit completion" where
  "ServiceObject_getMetadata_response this callback err resp s =
     (if truthy err then invoke callback [err, Null, resp] s
      else invoke callback [Null, resp, resp] (put_own this ''metadata'' resp s))"

section \<open>The Autoscaler handle\<close>

text \<open>
  \<^verbatim>\<open>new Autoscaler(zone, name)\<close>, lines 63 to 147: \<^verbatim>\<open>new\<close> makes the object,
  the body makes the \<^verbatim>\<open>methods\<close> table, binds the zone's \<^verbatim>\<open>createAutoscaler\<close>,
  calls the base constructor and sets \<^verbatim>\<open>name\<close> and \<^verbatim>\<open>zone\<close>.
\<close>

definition Autoscaler :: "jsval \<Rightarrow> jsval \<Rightarrow> state \<Rightarrow> jsval completion" where
  "Autoscaler zone name s =
     (let (this, s0) = alloc \<lparr>kind = AutoscalerObject, props = Map.empty\<rparr> s;
          (methods', s1) = alloc \<lparr>kind = PlainObject,
                                 props = [''create'' \<mapsto> Bool True, ''exists'' \<mapsto> Bool True,
                                          ''get'' \<mapsto> Bool True, ''getMetadata'' \<mapsto> Bool True]\<rparr> s0
      in case bind_method zone ''createAutoscaler'' s1 of
           Throw e s2 \<Rightarrow> Throw e s2
         | Normal createMethod' s2 \<Rightarrow>
             (let s3 = ServiceObject this
                         \<lparr>parent = zone, baseUrl = ''/autoscalers'', id' = name,
                          createMethod = createMethod', methods = Ref methods'\<rparr> s2;
                  s4 = put_own this ''name'' name s3;
                  s5 = put_own this ''zone'' zone s4
              in Normal (Ref this) s5))"

text \<open>\<^verbatim>\<open>Autoscaler.prototype.delete\<close>, lines 168 to 184, up to the call of the base.\<close>

definition Autoscaler_delete :: "addr \<Rightarrow> jsval \<Rightarrow> state \<Rightarrow> unit completion" where
  "Autoscaler_delete this callback s =
     (let callback' = or_noop callback;
          zone = get_own s this ''zone''
      in ServiceObject_delete this (DeleteResponse zone callback') s)"

text \<open>The function of lines 173 to 183, which receives the outcome of the delete.\<close>

definition delete_response ::
    "jsval \<Rightarrow> callee \<Rightarrow> jsval \<Rightarrow> jsval \<Rightarrow> state \<Rightarrow> unit completion" where
  "delete_response zone callback err resp s =
     (if truthy err then invoke callback [err, Null, resp] s
      else
        (case get_prop s resp ''name'' of
           Inl e \<Rightarrow> Throw e s
         | Inr n \<Rightarrow>
             (case Zone_operation zone n s of
                Throw e s1 \<Rightarrow> Throw e s1
              | Normal operation s1 \<Rightarrow>
                  (case put_prop operation ''metadata'' resp s1 of
                     Inl e \<Rightarrow> Throw e s1
                   | Inr s2 \<Rightarrow> invoke callback [Null, operation, resp] s2))))"

text \<open>
  \<^verbatim>\<open>Autoscaler.prototype.setMetadata\<close>, lines 209 to 236, up to the call of
  \<^verbatim>\<open>zone.request\<close>. \<^verbatim>\<open>this.zone\<close> and \<^verbatim>\<open>this.name\<close> are read where the source
  reads them: \<^verbatim>\<open>zone\<close> before the writes to \<^verbatim>\<open>metadata\<close>, the others after.
\<close>

definition Autoscaler_setMetadata :: "addr \<Rightarrow> jsval \<Rightarrow> jsval \<Rightarrow> state \<Rightarrow> unit completion" where
  "Autoscaler_setMetadata this metadata callback s =
     (let zone = get_own s this ''zone'';
          callback' = or_noop callback;
          (metadata', s1) =
             (if truthy metadata then (metadata, s)
              else (let (a, s') = alloc \<lparr>kind = PlainObject, props = Map.empty\<rparr> s
                    in (Ref a, s')))
      in case put_prop metadata' ''name'' (get_own s1 this ''name'') s1 of
           Inl e \<Rightarrow> Throw e s1
         | Inr s2 \<Rightarrow>
             (case get_prop s2 (get_own s2 this ''zone'') ''name'' of
                Inl e \<Rightarrow> Throw e s2
              | Inr zname \<Rightarrow>
                  (case put_prop metadata' ''zone'' zname s2 of
                     Inl e \<Rightarrow> Throw e s2
                   | Inr s3 \<Rightarrow>
                       Zone_request zone
                         \<lparr>method = ''PATCH'', uri = ''/autoscalers'',
                          qs = [(''autoscaler'', get_own s3 this ''name'')],
                          json = metadata'\<rparr>
                         (SetMetadataResponse zone callback') s3)))"

text \<open>The function of lines 225 to 235, which receives the outcome of the request.\<close>

definition setMetadata_response ::
    "jsval \<Rightarrow> callee \<Rightarrow> jsval \<Rightarrow> jsval \<Rightarrow> state \<Rightarrow> unit completion" where
  "setMetadata_response zone callback err resp s =
     (if truthy err then invoke callback [err, Null, resp] s
      else
        (case get_prop s resp ''name'' of
           Inl e \<Rightarrow> Throw e s
         | Inr n \<Rightarrow>
             (case Zone_operation zone n s of
                Throw e s1 \<Rightarrow> Throw e s1
              | Normal operation s1 \<Rightarrow>
                  (case put_prop operation ''metadata'' resp s1 of
                     Inl e \<Rightarrow> Throw e s1
                   | Inr s2 \<Rightarrow> invoke callback [Null, operation, resp] s2))))"

text \<open>The request layer hands an outcome to the function it was given.\<close>

fun resume :: "continuation \<Rightarrow> jsval \<Rightarrow> jsval \<Rightarrow> state \<Rightarrow> unit completion" where
  "resume (DeleteResponse zone callback) err resp s = delete_response zone callback err resp s"
| "resume (SetMetadataResponse zone callback) err resp s =
     setMetadata_response zone callback err resp s"

section \<open>Sequences of operations on a handle\<close>

text \<open>
  What can happen to a handle over its life: its two own methods are called, the request
  layer hands an outcome to a function it was given, and the generic
  \<^verbatim>\<open>getMetadata\<close> of the base receives an outcome. An exception ends the call, not
  the program: the next operation runs on the store the call left.
\<close>

datatype call =
    Delete jsval
  | SetMetadata jsval jsval
  | Outcome continuation jsval jsval
  | GetMetadataOutcome callee jsval jsval

fun perform :: "addr \<Rightarrow> call \<Rightarrow> state \<Rightarrow> state" where
  "perform this (Delete callback) s = state_of (Autoscaler_delete this callback s)"
| "perform this (SetMetadata metadata callback) s =
     state_of (Autoscaler_setMetadata this metadata callback s)"
| "perform this (Outcome k err resp) s = state_of (resume k err resp s)"
| "perform this (GetMetadataOutcome callback err resp) s =
     state_of (ServiceObject_getMetadata_response this callback err resp s)"

fun perform_all :: "addr \<Rightarrow> call list \<Rightarrow> state \<Rightarrow> state" where
  "perform_all this [] s = s"
| "perform_all this (c # cs) s = perform_all this cs (perform this c s)"

fun passes_handle :: "addr \<Rightarrow> call \<Rightarrow> bool" where
  "passes_handle this (SetMetadata metadata callback) = (metadata = Ref this)"
| "passes_handle this (Delete callback) = False"
| "passes_handle this (Outcome k err resp) = False"
| "passes_handle this (GetMetadataOutcome callback err resp) = False"

section \<open>An example store\<close>

text \<open>
  A zone \<^verbatim>\<open>us-central1-a\<close> at address 10, its autoscaler \<^verbatim>\<open>autoscaler-name\<close> at
  11, a function of the caller at 12, a response \<^verbatim>\<open>{name: 'operation-1'}\<close> at 13, a
  metadata object \<^verbatim>\<open>{description: 'x', name: 'other'}\<close> at 14 and a response without
  a name, \<^verbatim>\<open>{status: 'DONE'}\<close>, at 15.
\<close>

definition example_heap :: "addr \<Rightarrow> obj" where
  "example_heap =
     (\<lambda>a. \<lparr>kind = PlainObject, props = Map.empty\<rparr>)
       (10 := \<lparr>kind = ZoneObject, props = [''name'' \<mapsto> Str ''us-central1-a'']\<rparr>,
        11 := \<lparr>kind = AutoscalerObject,
               props = [''name'' \<mapsto> Str ''autoscaler-name'', ''zone'' \<mapsto> Ref 10]\<rparr>,
        12 := \<lparr>kind = FunctionObject, props = Map.empty\<rparr>,
        13 := \<lparr>kind = PlainObject, props = [''name'' \<mapsto> Str ''operation-1'']\<rparr>,
        14 := \<lparr>kind = PlainObject,
               props = [''description'' \<mapsto> Str ''x'', ''name'' \<mapsto> Str ''other'']\<rparr>,
        15 := \<lparr>kind = PlainObject, props = [''status'' \<mapsto> Str ''DONE'']\<rparr>)"

definition example_state :: state where
  "example_state = \<lparr>heap = example_heap, next_addr = 16, trace = []\<rparr>"

section \<open>Reading the store after a write\<close>

lemma kind_put_own: "kind (heap (put_own a k v s) b) = kind (heap s b)"
  by (simp add: put_own_def)

lemma props_put_own:
  "props (heap (put_own a k v s) b) =
     (if b = a then (props (heap s a))(k \<mapsto> v) else props (heap s b))"
  by (simp add: put_own_def)

lemma heap_put_own:
  "heap (put_own a k v s) b =
     (if b = a then (heap s a)\<lparr>props := (props (heap s a))(k \<mapsto> v)\<rparr> else heap s b)"
  by (simp add: put_own_def)

lemma get_own_put_own:
  "get_own (put_own a k v s) b j = (if b = a \<and> j = k then v else get_own s b j)"
  by (simp add: get_own_def put_own_def)

lemma next_addr_put_own: "next_addr (put_own a k v s) = next_addr s"
  by (simp add: put_own_def)

lemma trace_put_own: "trace (put_own a k v s) = trace s"
  by (simp add: put_own_def)

lemma heap_emit: "heap (emit e s) = heap s"
  by (simp add: emit_def)

lemma next_addr_emit: "next_addr (emit e s) = next_addr s"
  by (simp add: emit_def)

lemma trace_emit: "trace (emit e s) = trace s @ [e]"
  by (simp add: emit_def)

lemma get_own_emit: "get_own (emit e s) a k = get_own s a k"
  by (simp add: get_own_def emit_def)

lemma fst_alloc: "fst (alloc ob s) = next_addr s"
  by (simp add: alloc_def)

lemma heap_alloc: "heap (snd (alloc ob s)) a = (if a = next_addr s then ob else heap s a)"
  by (simp add: alloc_def)

lemma next_addr_alloc: "next_addr (snd (alloc ob s)) = Suc (next_addr s)"
  by (simp add: alloc_def)

lemma trace_alloc: "trace (snd (alloc ob s)) = trace s"
  by (simp add: alloc_def)

lemma get_own_alloc:
  "get_own (snd (alloc ob s)) a k =
     (if a = next_addr s then (case props ob k of None \<Rightarrow> Undefined | Some v \<Rightarrow> v)
      else get_own s a k)"
  by (simp add: get_own_def alloc_def)

lemmas store_simps =
  kind_put_own props_put_own get_own_put_own next_addr_put_own trace_put_own
  heap_emit next_addr_emit trace_emit get_own_emit
  fst_alloc heap_alloc next_addr_alloc trace_alloc get_own_alloc

lemmas example_defs = example_state_def example_heap_def get_own_def

section \<open>What the two methods and their response functions compute\<close>

text \<open>setMetadata on an object: the object itself is written and sent.\<close>

lemma setMetadata_object:
  assumes "get_own s this ''zone'' = Ref z"
      and "kind (heap s z) = ZoneObject"
      and "\<not> callable (kind (heap s m))"
  shows "Autoscaler_setMetadata this (Ref m) callback s =
     Normal ()
       (emit (ZoneRequest z
                \<lparr>method = ''PATCH'', uri = ''/autoscalers'',
                 qs = [(''autoscaler'', get_own s this ''name'')], json = Ref m\<rparr>
                (SetMetadataResponse (Ref z) (or_noop callback)))
          (put_own m ''zone'' (if m = z then get_own s this ''name'' else get_own s z ''name'')
             (put_own m ''name'' (get_own s this ''name'') s)))"
  using assms
  by (simp add: Autoscaler_setMetadata_def read_only_def store_simps)

text \<open>setMetadata without metadata: a new empty object is written and sent.\<close>

lemma setMetadata_omitted:
  assumes "get_own s this ''zone'' = Ref z"
      and "kind (heap s z) = ZoneObject"
      and "this < next_addr s" and "z < next_addr s"
      and "\<not> truthy metadata"
  shows "Autoscaler_setMetadata this metadata callback s =
     Normal ()
       (emit (ZoneRequest z
                \<lparr>method = ''PATCH'', uri = ''/autoscalers'',
                 qs = [(''autoscaler'', get_own s this ''name'')], json = Ref (next_addr s)\<rparr>
                (SetMetadataResponse (Ref z) (or_noop callback)))
          (put_own (next_addr s) ''zone'' (get_own s z ''name'')
             (put_own (next_addr s) ''name'' (get_own s this ''name'')
                (snd (alloc \<lparr>kind = PlainObject, props = Map.empty\<rparr> s)))))"
  using assms
  by (simp add: Autoscaler_setMetadata_def read_only_def store_simps split_beta)

lemma delete_response_failure:
  "truthy err \<Longrightarrow>
   delete_response zone callback err resp s = invoke callback [err, Null, resp] s"
  by (simp add: delete_response_def)

lemma setMetadata_response_failure:
  "truthy err \<Longrightarrow>
   setMetadata_response zone callback err resp s = invoke callback [err, Null, resp] s"
  by (simp add: setMetadata_response_def)

lemma delete_response_success:
  assumes "\<not> truthy err" and "kind (heap s z) = ZoneObject"
  shows "delete_response (Ref z) callback err (Ref r) s =
     invoke callback [Null, Ref (next_addr s), Ref r]
       (put_own (next_addr s) ''metadata'' (Ref r)
          (snd (alloc \<lparr>kind = OperationObject,
                         props = [''name'' \<mapsto> get_own s r ''name'', ''parent'' \<mapsto> Ref z]\<rparr> s)))"
  using assms
  by (simp add: delete_response_def read_only_def store_simps split_beta)

lemma setMetadata_response_success:
  assumes "\<not> truthy err" and "kind (heap s z) = ZoneObject"
  shows "setMetadata_response (Ref z) callback err (Ref r) s =
     invoke callback [Null, Ref (next_addr s), Ref r]
       (put_own (next_addr s) ''metadata'' (Ref r)
          (snd (alloc \<lparr>kind = OperationObject,
                         props = [''name'' \<mapsto> get_own s r ''name'', ''parent'' \<mapsto> Ref z]\<rparr> s)))"
  using assms
  by (simp add: setMetadata_response_def read_only_def store_simps split_beta)

lemma Autoscaler_zone:
  assumes "kind (heap s z) = ZoneObject" and "z < next_addr s"
  shows "Autoscaler (Ref z) name s =
     Normal (Ref (next_addr s))
       (put_own (next_addr s) ''zone'' (Ref z)
         (put_own (next_addr s) ''name'' name
           (ServiceObject (next_addr s)
              \<lparr>parent = Ref z, baseUrl = ''/autoscalers'', id' = name,
               createMethod = Ref (Suc (Suc (next_addr s))), methods = Ref (Suc (next_addr s))\<rparr>
              (snd (alloc \<lparr>kind = BoundFunction z ''createAutoscaler'', props = Map.empty\<rparr>
                 (snd (alloc \<lparr>kind = PlainObject,
                               props = [''create'' \<mapsto> Bool True, ''exists'' \<mapsto> Bool True,
                                        ''get'' \<mapsto> Bool True, ''getMetadata'' \<mapsto> Bool True]\<rparr>
                    (snd (alloc \<lparr>kind = AutoscalerObject, props = Map.empty\<rparr> s)))))))))"
  using assms
  by (simp add: Autoscaler_def Zone_methods_def store_simps split_beta)

section \<open>What the calls leave untouched\<close>

lemma heap_invoke: "heap (state_of (invoke c args s)) = heap s"
  by (induction c args s rule: invoke.induct) (simp_all add: store_simps)

lemma next_addr_invoke: "next_addr (state_of (invoke c args s)) = next_addr s"
  by (induction c args s rule: invoke.induct) (simp_all add: store_simps)

lemma heap_Zone_request: "heap (state_of (Zone_request zone opts k s)) = heap s"
  by (induction zone opts k s rule: Zone_request.induct) (simp_all add: store_simps)

lemma next_addr_Zone_request: "next_addr (state_of (Zone_request zone opts k s)) = next_addr s"
  by (induction zone opts k s rule: Zone_request.induct) (simp_all add: store_simps)

lemma Zone_operation_Normal:
  "Zone_operation zone n s = Normal v s1 \<Longrightarrow>
   v = Ref (next_addr s) \<and> next_addr s1 = Suc (next_addr s) \<and>
   (\<forall>a. a \<noteq> next_addr s \<longrightarrow> heap s1 a = heap s a)"
  by (induction zone n s rule: Zone_operation.induct)
     (auto simp add: store_simps alloc_def split: if_splits)

lemma Zone_operation_Throw: "Zone_operation zone n s = Throw e s1 \<Longrightarrow> s1 = s"
  by (induction zone n s rule: Zone_operation.induct) (auto simp add: alloc_def split: if_splits)

lemma put_prop_Inr:
  "put_prop v k x s = Inr s' \<Longrightarrow> \<exists>a. v = Ref a \<and> s' = put_own a k x s"
  by (cases v) (simp_all split: if_splits)

text \<open>The response functions write nothing but the Operation they make.\<close>

lemma delete_response_frame:
  assumes "a < next_addr s"
  shows "heap (state_of (delete_response zone callback err resp s)) a = heap s a"
proof (cases "truthy err")
  case True
  then show ?thesis by (simp add: delete_response_failure heap_invoke)
next
  case False
  show ?thesis
  proof (cases "get_prop s resp ''name''")
    case (Inl e)
    with False show ?thesis by (simp add: delete_response_def)
  next
    case (Inr n)
    show ?thesis
    proof (cases "Zone_operation zone n s")
      case (Throw e s1)
      with False Inr Zone_operation_Throw [OF Throw] show ?thesis
        by (simp add: delete_response_def)
    next
      case (Normal v s1)
      from Zone_operation_Normal [OF Normal] assms
      have v: "v = Ref (next_addr s)" and s1: "heap s1 a = heap s a" by auto
      from False Inr Normal v s1 assms show ?thesis
        by (simp add: delete_response_def heap_invoke put_own_def)
    qed
  qed
qed

lemma setMetadata_response_frame:
  assumes "a < next_addr s"
  shows "heap (state_of (setMetadata_response zone callback err resp s)) a = heap s a"
proof -
  have "setMetadata_response zone callback err resp s = delete_response zone callback err resp s"
    by (simp add: setMetadata_response_def delete_response_def)
  with delete_response_frame [OF assms] show ?thesis by simp
qed

lemma resume_frame:
  "a < next_addr s \<Longrightarrow> heap (state_of (resume k err resp s)) a = heap s a"
  by (cases k) (simp_all add: delete_response_frame setMetadata_response_frame)

lemma delete_frame: "heap (state_of (Autoscaler_delete this callback s)) = heap s"
  by (simp add: Autoscaler_delete_def ServiceObject_delete_def store_simps)

text \<open>
  setMetadata writes only the keys \<^verbatim>\<open>name\<close> and \<^verbatim>\<open>zone\<close>, whatever it is given
  and however it ends.
\<close>

lemma setMetadata_frame:
  assumes "a < next_addr s" and "j \<noteq> ''name''" and "j \<noteq> ''zone''"
  shows "props (heap (state_of (Autoscaler_setMetadata this metadata callback s)) a) j =
         props (heap s a) j
       \<and> kind (heap (state_of (Autoscaler_setMetadata this metadata callback s)) a) =
         kind (heap s a)"
  using assms
  by (auto simp add: Autoscaler_setMetadata_def Let_def split_beta store_simps heap_Zone_request
      dest!: put_prop_Inr split: sum.splits if_splits)

text \<open>Given anything but the object \<open>a\<close>, setMetadata leaves \<open>a\<close> as it was.\<close>

lemma setMetadata_other_object:
  assumes "a < next_addr s" and "metadata \<noteq> Ref a"
  shows "heap (state_of (Autoscaler_setMetadata this metadata callback s)) a = heap s a"
  using assms
  by (auto simp add: Autoscaler_setMetadata_def Let_def split_beta store_simps heap_Zone_request
      heap_put_own dest!: put_prop_Inr split: sum.splits if_splits)

text \<open>Addresses are only ever taken, never given back.\<close>

lemma next_addr_delete_response:
  "next_addr s \<le> next_addr (state_of (delete_response zone callback err resp s))"
proof (cases "truthy err")
  case True
  then show ?thesis by (simp add: delete_response_failure next_addr_invoke)
next
  case False
  show ?thesis
  proof (cases "get_prop s resp ''name''")
    case (Inl e)
    with False show ?thesis by (simp add: delete_response_def)
  next
    case (Inr n)
    show ?thesis
    proof (cases "Zone_operation zone n s")
      case (Throw e s1)
      with False Inr Zone_operation_Throw [OF Throw] show ?thesis
        by (simp add: delete_response_def)
    next
      case (Normal v s1)
      from Zone_operation_Normal [OF Normal]
      have v: "v = Ref (next_addr s)" and s1: "next_addr s1 = Suc (next_addr s)" by auto
      from False Inr Normal v s1 show ?thesis
        by (simp add: delete_response_def next_addr_invoke store_simps)
    qed
  qed
qed

lemma next_addr_resume: "next_addr s \<le> next_addr (state_of (resume k err resp s))"
proof (cases k)
  case (DeleteResponse zone callback)
  then show ?thesis by (simp add: next_addr_delete_response)
next
  case (SetMetadataResponse zone callback)
  have "setMetadata_response zone callback err resp s = delete_response zone callback err resp s"
    by (simp add: setMetadata_response_def delete_response_def)
  with SetMetadataResponse show ?thesis by (simp add: next_addr_delete_response)
qed

lemma next_addr_setMetadata:
  "next_addr s \<le> next_addr (state_of (Autoscaler_setMetadata this metadata callback s))"
  by (auto simp add: Autoscaler_setMetadata_def Let_def split_beta store_simps
      next_addr_Zone_request dest!: put_prop_Inr split: sum.splits if_splits)

lemma next_addr_perform: "next_addr s \<le> next_addr (perform this c s)"
  by (cases c)
     (simp_all add: Autoscaler_delete_def ServiceObject_delete_def store_simps
       next_addr_setMetadata next_addr_resume ServiceObject_getMetadata_response_def
       next_addr_invoke)

lemma perform_preserves:
  assumes "this < next_addr s" and "\<not> passes_handle this c"
  shows "kind (heap (perform this c s) this) = kind (heap s this)
       \<and> (\<forall>key. key \<noteq> ''metadata'' \<longrightarrow>
            props (heap (perform this c s) this) key = props (heap s this) key)"
proof (cases c)
  case (Delete callback)
  then show ?thesis by (simp add: delete_frame)
next
  case (SetMetadata metadata callback)
  with assms(2) have "metadata \<noteq> Ref this" by simp
  with SetMetadata assms(1) show ?thesis by (simp add: setMetadata_other_object)
next
  case (Outcome k err resp)
  with assms(1) show ?thesis by (simp add: resume_frame)
next
  case (GetMetadataOutcome callback err resp)
  then show ?thesis
    by (simp add: ServiceObject_getMetadata_response_def heap_invoke store_simps)
qed

text \<open>What each method hands to the request layer, and with which response function.\<close>

lemma delete_registers:
  "Autoscaler_delete this callback s =
     Normal () (emit (ServiceObjectDelete this
                        (DeleteResponse (get_own s this ''zone'') (or_noop callback))) s)"
  by (simp add: Autoscaler_delete_def ServiceObject_delete_def)

lemma setMetadata_registers:
  assumes "get_own s this ''zone'' = Ref z"
      and "kind (heap s z) = ZoneObject"
      and "this < next_addr s" and "z < next_addr s"
      and "(\<exists>m. metadata = Ref m \<and> \<not> callable (kind (heap s m))) \<or> \<not> truthy metadata"
  shows "\<not> throws (Autoscaler_setMetadata this metadata callback s)
       \<and> trace (state_of (Autoscaler_setMetadata this metadata callback s)) =
           trace s @ [ZoneRequest z
              \<lparr>method = ''PATCH'', uri = ''/autoscalers'',
               qs = [(''autoscaler'', get_own s this ''name'')],
               json = (if truthy metadata then metadata else Ref (next_addr s))\<rparr>
              (SetMetadataResponse (Ref z) (or_noop callback))]"
proof (cases "truthy metadata")
  case True
  with assms(5) obtain m where m: "metadata = Ref m" and nc: "\<not> callable (kind (heap s m))"
    by blast
  show ?thesis
    unfolding m setMetadata_object [OF assms(1,2) nc] by (simp add: store_simps)
next
  case False
  show ?thesis
    unfolding setMetadata_omitted [OF assms(1-4) False] using False by (simp add: store_simps)
qed

text \<open>Given a function as metadata, setMetadata throws at line 215 and sends nothing.\<close>

lemma setMetadata_function_throws:
  assumes "callable (kind (heap s m))"
  shows "Autoscaler_setMetadata this (Ref m) callback s = Throw TypeError s"
  using assms by (simp add: Autoscaler_setMetadata_def read_only_def)

lemma response_functions_agree:
  "setMetadata_response zone callback err resp s = delete_response zone callback err resp s"
  unfolding setMetadata_response_def delete_response_def by (rule refl)

text \<open>The Operation that \<^verbatim>\<open>zone.operation(n)\<close> makes on a zone.\<close>

lemma Zone_operation_zone:
  assumes "kind (heap s z) = ZoneObject"
  shows "Zone_operation (Ref z) n s =
     Normal (Ref (next_addr s))
       (snd (alloc \<lparr>kind = OperationObject,
                      props = [''name'' \<mapsto> n, ''parent'' \<mapsto> Ref z]\<rparr> s))"
  using assms by (simp add: split_beta store_simps)

text \<open>
  What both response functions do with a successful outcome, in terms of
  \<^verbatim>\<open>zone.operation\<close> itself.
\<close>

lemma response_success_by_operation:
  assumes "\<not> truthy err" and "kind (heap s z) = ZoneObject"
      and "callable (kind (heap s f))" and "f < next_addr s"
  shows "delete_response (Ref z) (Given (Ref f)) err (Ref r) s =
           Normal () (emit (Invoke (Ref f) [Null, Ref (next_addr s), Ref r])
             (put_own (next_addr s) ''metadata'' (Ref r)
                (state_of (Zone_operation (Ref z) (get_own s r ''name'') s))))
       \<and> setMetadata_response (Ref z) (Given (Ref f)) err (Ref r) s =
           Normal () (emit (Invoke (Ref f) [Null, Ref (next_addr s), Ref r])
             (put_own (next_addr s) ''metadata'' (Ref r)
                (state_of (Zone_operation (Ref z) (get_own s r ''name'') s))))"
  using assms
  by (simp add: delete_response_success setMetadata_response_success Zone_operation_zone
      store_simps del: Zone_operation.simps)

section \<open>Response handling of the two overrides\<close>

text \<open>
  C4: the success post-processing of setMetadata is identical to that of delete. For a
  handle of zone \<open>z\<close> and the caller's function \<open>f\<close>, delete and setMetadata each
  register a response function over that zone and that callback; for every successful
  outcome with response object \<open>r\<close> both response functions build
  \<^verbatim>\<open>zone.operation(response.name)\<close>, assign the response as that operation's
  metadata and call \<^verbatim>\<open>callback(null, operation, response)\<close>, ending in the same
  store; and the two functions agree on every zone, callback, outcome and store.
\<close>

theorem setMetadata_success_as_delete:
  assumes "get_own s0 this ''zone'' = Ref z"
      and "kind (heap s0 z) = ZoneObject"
      and "this < next_addr s0" and "z < next_addr s0"
      and "(\<exists>m. metadata = Ref m \<and> \<not> callable (kind (heap s0 m))) \<or> \<not> truthy metadata"
      and "\<not> truthy err"
      and "kind (heap s z) = ZoneObject"
      and "callable (kind (heap s f))"
      and "f < next_addr s"
  shows "trace (state_of (Autoscaler_delete this (Ref f) s0)) =
           trace s0 @ [ServiceObjectDelete this (DeleteResponse (Ref z) (Given (Ref f)))]
       \<and> trace (state_of (Autoscaler_setMetadata this metadata (Ref f) s0)) =
           trace s0 @ [ZoneRequest z
              \<lparr>method = ''PATCH'', uri = ''/autoscalers'',
               qs = [(''autoscaler'', get_own s0 this ''name'')],
               json = (if truthy metadata then metadata else Ref (next_addr s0))\<rparr>
              (SetMetadataResponse (Ref z) (Given (Ref f)))]
       \<and> value_of (Zone_operation (Ref z) (get_own s r ''name'') s) = Some (Ref (next_addr s))
       \<and> resume (DeleteResponse (Ref z) (Given (Ref f))) err (Ref r) s =
           Normal () (emit (Invoke (Ref f) [Null, Ref (next_addr s), Ref r])
             (put_own (next_addr s) ''metadata'' (Ref r)
                (state_of (Zone_operation (Ref z) (get_own s r ''name'') s))))
       \<and> resume (SetMetadataResponse (Ref z) (Given (Ref f))) err (Ref r) s =
           Normal () (emit (Invoke (Ref f) [Null, Ref (next_addr s), Ref r])
             (put_own (next_addr s) ''metadata'' (Ref r)
                (state_of (Zone_operation (Ref z) (get_own s r ''name'') s))))
       \<and> setMetadata_response zone' callback' err' resp' s' =
           delete_response zone' callback' err' resp' s'"
proof -
  have reg: "trace (state_of (Autoscaler_delete this (Ref f) s0)) =
           trace s0 @ [ServiceObjectDelete this (DeleteResponse (Ref z) (Given (Ref f)))]
       \<and> trace (state_of (Autoscaler_setMetadata this metadata (Ref f) s0)) =
           trace s0 @ [ZoneRequest z
              \<lparr>method = ''PATCH'', uri = ''/autoscalers'',
               qs = [(''autoscaler'', get_own s0 this ''name'')],
               json = (if truthy metadata then metadata else Ref (next_addr s0))\<rparr>
              (SetMetadataResponse (Ref z) (Given (Ref f)))]"
    using delete_registers [of this "Ref f" s0] setMetadata_registers [OF assms(1-5), of "Ref f"]
      assms(1)
    by (simp add: or_noop_def store_simps)
  have op: "value_of (Zone_operation (Ref z) (get_own s r ''name'') s) = Some (Ref (next_addr s))"
    using assms(7) by (simp add: split_beta store_simps)
  from reg op response_success_by_operation [OF assms(6-9), of r]
    response_functions_agree [of zone' callback' err' resp' s']
  show ?thesis by simp
qed

theorem setMetadata_success_as_delete_witness:
  "trace (state_of (Autoscaler_delete 11 (Ref 12) example_state)) =
       [ServiceObjectDelete 11 (DeleteResponse (Ref 10) (Given (Ref 12)))]
   \<and> trace (state_of (Autoscaler_setMetadata 11 (Ref 14) (Ref 12) example_state)) =
       [ZoneRequest 10
          \<lparr>method = ''PATCH'', uri = ''/autoscalers'',
           qs = [(''autoscaler'', Str ''autoscaler-name'')], json = Ref 14\<rparr>
          (SetMetadataResponse (Ref 10) (Given (Ref 12)))]
   \<and> resume (SetMetadataResponse (Ref 10) (Given (Ref 12))) Null (Ref 13) example_state =
       resume (DeleteResponse (Ref 10) (Given (Ref 12))) Null (Ref 13) example_state
   \<and> trace (state_of (resume (SetMetadataResponse (Ref 10) (Given (Ref 12))) Null (Ref 13)
       example_state)) = [Invoke (Ref 12) [Null, Ref 16, Ref 13]]
   \<and> props (heap (state_of (resume (SetMetadataResponse (Ref 10) (Given (Ref 12))) Null (Ref 13)
       example_state)) 16) ''metadata'' = Some (Ref 13)
   \<and> props (heap (state_of (resume (SetMetadataResponse (Ref 10) (Given (Ref 12))) Null (Ref 13)
       example_state)) 16) ''name'' = Some (Str ''operation-1'')"
proof -
  have h1: "get_own example_state 11 ''zone'' = Ref 10" by (simp add: example_defs)
  have h2: "kind (heap example_state 10) = ZoneObject" by (simp add: example_defs)
  have h3: "11 < next_addr example_state" by (simp add: example_defs)
  have h4: "10 < next_addr example_state" by (simp add: example_defs)
  have h5: "(\<exists>m. Ref 14 = Ref m \<and> \<not> callable (kind (heap example_state m)))
      \<or> \<not> truthy (Ref 14)" by (simp add: example_defs)
  have h6: "\<not> truthy Null" by simp
  have h8: "callable (kind (heap example_state 12))" by (simp add: example_defs)
  have h9: "12 < next_addr example_state" by (simp add: example_defs)
  have n: "next_addr example_state = 16" "trace example_state = []"
    "get_own example_state 13 ''name'' = Str ''operation-1''"
    "get_own example_state 11 ''name'' = Str ''autoscaler-name''"
    by (simp_all add: example_defs)
  have op: "Zone_operation (Ref 10) (Str ''operation-1'') example_state =
      Normal (Ref 16)
        (snd (alloc \<lparr>kind = OperationObject,
                       props = [''name'' \<mapsto> Str ''operation-1'', ''parent'' \<mapsto> Ref 10]\<rparr>
                example_state))"
    using Zone_operation_zone [OF h2, of "Str ''operation-1''"] by (simp add: n)
  from setMetadata_success_as_delete [OF h1 h2 h3 h4 h5 h6 h2 h8 h9, of 13]
  show ?thesis by (simp add: n op store_simps del: Zone_operation.simps)
qed

section \<open>Successful delete\<close>

text \<open>
  C1: for every successful delete, the callback is invoked as
  \<^verbatim>\<open>(null, operation, response)\<close>, where \<^verbatim>\<open>operation\<close> is the handle returned by
  \<^verbatim>\<open>zone.operation(response.name)\<close>, so its identifier equals
  \<^verbatim>\<open>response.name\<close>, and \<^verbatim>\<open>operation.metadata\<close> is the raw response object
  itself, the same reference. Here \<open>s0\<close> is the store when delete is called on a handle
  of zone \<open>z\<close> with the caller's function \<open>f\<close>, and \<open>s\<close> the store when the outcome
  arrives with a falsy error and the response object \<open>r\<close>.
\<close>

theorem delete_success_callback:
  assumes "get_own s0 this ''zone'' = Ref z"
      and "\<not> truthy err"
      and "kind (heap s z) = ZoneObject"
      and "callable (kind (heap s f))"
      and "f < next_addr s"
  shows "Autoscaler_delete this (Ref f) s0 =
           Normal () (emit (ServiceObjectDelete this (DeleteResponse (Ref z) (Given (Ref f)))) s0)
       \<and> \<not> throws (resume (DeleteResponse (Ref z) (Given (Ref f))) err (Ref r) s)
       \<and> trace (state_of (resume (DeleteResponse (Ref z) (Given (Ref f))) err (Ref r) s)) =
           trace s @ [Invoke (Ref f) [Null, Ref (next_addr s), Ref r]]
       \<and> value_of (Zone_operation (Ref z) (get_own s r ''name'') s) = Some (Ref (next_addr s))
       \<and> kind (heap (state_of (resume (DeleteResponse (Ref z) (Given (Ref f))) err (Ref r) s))
                 (next_addr s)) = OperationObject
       \<and> get_own (state_of (resume (DeleteResponse (Ref z) (Given (Ref f))) err (Ref r) s))
                 (next_addr s) ''name'' = get_own s r ''name''
       \<and> props (heap (state_of (resume (DeleteResponse (Ref z) (Given (Ref f))) err (Ref r) s))
                  (next_addr s)) ''metadata'' = Some (Ref r)"
  using assms
  by (simp add: Autoscaler_delete_def ServiceObject_delete_def delete_response_success
      or_noop_def store_simps split_beta)

theorem delete_success_callback_witness:
  "get_own example_state 11 ''zone'' = Ref 10
   \<and> \<not> truthy Null
   \<and> kind (heap example_state 10) = ZoneObject
   \<and> callable (kind (heap example_state 12))
   \<and> 12 < next_addr example_state
   \<and> Autoscaler_delete 11 (Ref 12) example_state =
       Normal () (emit (ServiceObjectDelete 11 (DeleteResponse (Ref 10) (Given (Ref 12))))
                    example_state)
   \<and> trace (state_of (resume (DeleteResponse (Ref 10) (Given (Ref 12))) Null (Ref 13) example_state)) =
       [Invoke (Ref 12) [Null, Ref 16, Ref 13]]
   \<and> get_own (state_of (resume (DeleteResponse (Ref 10) (Given (Ref 12))) Null (Ref 13) example_state))
       16 ''name'' = Str ''operation-1''
   \<and> props (heap (state_of (resume (DeleteResponse (Ref 10) (Given (Ref 12))) Null (Ref 13)
       example_state)) 16) ''metadata'' = Some (Ref 13)"
proof -
  have h1: "get_own example_state 11 ''zone'' = Ref 10" by (simp add: example_defs)
  have h2: "\<not> truthy Null" by simp
  have h3: "kind (heap example_state 10) = ZoneObject" by (simp add: example_defs)
  have h4: "callable (kind (heap example_state 12))" by (simp add: example_defs)
  have h5: "12 < next_addr example_state" by (simp add: example_defs)
  have n: "next_addr example_state = 16" "trace example_state = []"
    "get_own example_state 13 ''name'' = Str ''operation-1''"
    by (simp_all add: example_defs)
  from delete_success_callback [OF h1 h2 h3 h4 h5, of 13] h1 h2 h3 h4 h5
  show ?thesis by (simp add: n)
qed

section \<open>The request of setMetadata\<close>

text \<open>
  C2: for every call to \<^verbatim>\<open>setMetadata(metadata, cb)\<close>, including when
  \<^verbatim>\<open>metadata\<close> is omitted (it is then a new empty object), the request issued is an
  HTTP PATCH to \<^verbatim>\<open>/autoscalers\<close> with query parameter \<^verbatim>\<open>autoscaler\<close> equal to the
  handle's name, and the JSON body is the input metadata with \<^verbatim>\<open>name\<close> set to the
  handle's name and \<^verbatim>\<open>zone\<close> set to the parent zone's name, whatever the caller had
  put under those two keys. The handle and its zone \<open>z\<close> are objects of the store, and
  \<^verbatim>\<open>metadata\<close> is a metadata object as documented: an object that is not a
  function, or omitted. The zone's name is the one it has when the request is issued,
  which is the one it had at the call unless the caller passed the zone object itself as
  \<^verbatim>\<open>metadata\<close>.
\<close>

theorem setMetadata_request:
  assumes "get_own s this ''zone'' = Ref z"
      and "kind (heap s z) = ZoneObject"
      and "this < next_addr s" and "z < next_addr s"
      and "(\<exists>m. metadata = Ref m \<and> \<not> callable (kind (heap s m))) \<or> \<not> truthy metadata"
  shows "\<not> throws (Autoscaler_setMetadata this metadata callback s)
     \<and> trace (state_of (Autoscaler_setMetadata this metadata callback s)) =
         trace s @ [ZoneRequest z
            \<lparr>method = ''PATCH'', uri = ''/autoscalers'',
             qs = [(''autoscaler'', get_own s this ''name'')],
             json = (if truthy metadata then metadata else Ref (next_addr s))\<rparr>
            (SetMetadataResponse (Ref z) (or_noop callback))]
     \<and> get_prop (state_of (Autoscaler_setMetadata this metadata callback s))
           (if truthy metadata then metadata else Ref (next_addr s)) ''name'' =
         Inr (get_own s this ''name'')
     \<and> get_prop (state_of (Autoscaler_setMetadata this metadata callback s))
           (if truthy metadata then metadata else Ref (next_addr s)) ''zone'' =
         Inr (get_own (state_of (Autoscaler_setMetadata this metadata callback s)) z ''name'')
     \<and> (metadata \<noteq> Ref z \<longrightarrow>
          get_own (state_of (Autoscaler_setMetadata this metadata callback s)) z ''name'' =
          get_own s z ''name'')
     \<and> (\<not> truthy metadata \<longrightarrow>
          props (heap (state_of (Autoscaler_setMetadata this metadata callback s)) (next_addr s)) =
            [''name'' \<mapsto> get_own s this ''name'', ''zone'' \<mapsto> get_own s z ''name''])"
proof (cases "truthy metadata")
  case True
  with assms(5) obtain m where m: "metadata = Ref m" and nc: "\<not> callable (kind (heap s m))"
    by blast
  show ?thesis
    unfolding m setMetadata_object [OF assms(1,2) nc]
    by (simp add: store_simps)
next
  case False
  show ?thesis
    unfolding setMetadata_omitted [OF assms(1-4) False]
    using False assms(3,4) by (simp add: store_simps)
qed

theorem setMetadata_request_witness:
  "get_own example_state 11 ''zone'' = Ref 10
   \<and> kind (heap example_state 10) = ZoneObject
   \<and> 11 < next_addr example_state \<and> 10 < next_addr example_state
   \<and> \<not> callable (kind (heap example_state 14))
   \<and> \<not> truthy Undefined
   \<and> trace (state_of (Autoscaler_setMetadata 11 (Ref 14) (Ref 12) example_state)) =
       [ZoneRequest 10
          \<lparr>method = ''PATCH'', uri = ''/autoscalers'',
           qs = [(''autoscaler'', Str ''autoscaler-name'')], json = Ref 14\<rparr>
          (SetMetadataResponse (Ref 10) (Given (Ref 12)))]
   \<and> get_prop (state_of (Autoscaler_setMetadata 11 (Ref 14) (Ref 12) example_state)) (Ref 14) ''name'' =
       Inr (Str ''autoscaler-name'')
   \<and> get_prop (state_of (Autoscaler_setMetadata 11 (Ref 14) (Ref 12) example_state)) (Ref 14) ''zone'' =
       Inr (Str ''us-central1-a'')
   \<and> trace (state_of (Autoscaler_setMetadata 11 Undefined Undefined example_state)) =
       [ZoneRequest 10
          \<lparr>method = ''PATCH'', uri = ''/autoscalers'',
           qs = [(''autoscaler'', Str ''autoscaler-name'')], json = Ref 16\<rparr>
          (SetMetadataResponse (Ref 10) Noop)]
   \<and> props (heap (state_of (Autoscaler_setMetadata 11 Undefined Undefined example_state)) 16) =
       [''name'' \<mapsto> Str ''autoscaler-name'', ''zone'' \<mapsto> Str ''us-central1-a'']"
proof -
  have h1: "get_own example_state 11 ''zone'' = Ref 10" by (simp add: example_defs)
  have h2: "kind (heap example_state 10) = ZoneObject" by (simp add: example_defs)
  have h3: "11 < next_addr example_state" by (simp add: example_defs)
  have h4: "10 < next_addr example_state" by (simp add: example_defs)
  have h5: "(\<exists>m. Ref 14 = Ref m \<and> \<not> callable (kind (heap example_state m)))
      \<or> \<not> truthy (Ref 14)" by (simp add: example_defs)
  have h6: "(\<exists>m. Undefined = Ref m \<and> \<not> callable (kind (heap example_state m)))
      \<or> \<not> truthy Undefined" by simp
  have nc: "\<not> callable (kind (heap example_state 14))" by (simp add: example_defs)
  have n: "next_addr example_state = 16" "trace example_state = []"
    "get_own example_state 11 ''name'' = Str ''autoscaler-name''"
    "get_own example_state 10 ''name'' = Str ''us-central1-a''"
    by (simp_all add: example_defs)
  from setMetadata_request [OF h1 h2 h3 h4 h5, of "Ref 12"]
    setMetadata_request [OF h1 h2 h3 h4 h6, of Undefined] h1 h2 h3 h4 nc
  show ?thesis by (simp add: n or_noop_def)
qed

section \<open>Failing calls\<close>

text \<open>
  C3: for every failing delete or setMetadata call, the callback receives
  \<^verbatim>\<open>(error, null, rawResponse)\<close>: the error is the one the request layer gave, the
  second argument is \<^verbatim>\<open>null\<close>, and no Operation handle is made on the error path
  (the store holds the same objects as before, and no address is taken). Each method
  registers a response function that holds the caller's function \<open>f\<close>; a failing call
  is one whose outcome, handed to that response function, has a truthy error.
\<close>

theorem failure_callback:
  assumes "get_own s0 this ''zone'' = Ref z"
      and "kind (heap s0 z) = ZoneObject"
      and "this < next_addr s0" and "z < next_addr s0"
      and "(\<exists>m. metadata = Ref m \<and> \<not> callable (kind (heap s0 m))) \<or> \<not> truthy metadata"
      and "truthy err"
      and "callable (kind (heap s f))"
  shows "trace (state_of (Autoscaler_delete this (Ref f) s0)) =
           trace s0 @ [ServiceObjectDelete this (DeleteResponse (Ref z) (Given (Ref f)))]
       \<and> trace (state_of (Autoscaler_setMetadata this metadata (Ref f) s0)) =
           trace s0 @ [ZoneRequest z
              \<lparr>method = ''PATCH'', uri = ''/autoscalers'',
               qs = [(''autoscaler'', get_own s0 this ''name'')],
               json = (if truthy metadata then metadata else Ref (next_addr s0))\<rparr>
              (SetMetadataResponse (Ref z) (Given (Ref f)))]
       \<and> resume (DeleteResponse (Ref z) (Given (Ref f))) err resp s =
           Normal () (emit (Invoke (Ref f) [err, Null, resp]) s)
       \<and> resume (SetMetadataResponse (Ref z) (Given (Ref f))) err resp s =
           Normal () (emit (Invoke (Ref f) [err, Null, resp]) s)
       \<and> trace (emit (Invoke (Ref f) [err, Null, resp]) s) =
           trace s @ [Invoke (Ref f) [err, Null, resp]]
       \<and> heap (emit (Invoke (Ref f) [err, Null, resp]) s) = heap s
       \<and> next_addr (emit (Invoke (Ref f) [err, Null, resp]) s) = next_addr s"
proof -
  have reg: "trace (state_of (Autoscaler_delete this (Ref f) s0)) =
           trace s0 @ [ServiceObjectDelete this (DeleteResponse (Ref z) (Given (Ref f)))]
       \<and> trace (state_of (Autoscaler_setMetadata this metadata (Ref f) s0)) =
           trace s0 @ [ZoneRequest z
              \<lparr>method = ''PATCH'', uri = ''/autoscalers'',
               qs = [(''autoscaler'', get_own s0 this ''name'')],
               json = (if truthy metadata then metadata else Ref (next_addr s0))\<rparr>
              (SetMetadataResponse (Ref z) (Given (Ref f)))]"
    using delete_registers [of this "Ref f" s0] setMetadata_registers [OF assms(1-5), of "Ref f"]
      assms(1)
    by (simp add: or_noop_def store_simps)
  from reg assms(6,7) show ?thesis
    by (simp add: delete_response_failure setMetadata_response_failure store_simps)
qed

theorem failure_callback_witness:
  "trace (state_of (Autoscaler_delete 11 (Ref 12) example_state)) =
       [ServiceObjectDelete 11 (DeleteResponse (Ref 10) (Given (Ref 12)))]
   \<and> trace (state_of (Autoscaler_setMetadata 11 (Ref 14) (Ref 12) example_state)) =
       [ZoneRequest 10
          \<lparr>method = ''PATCH'', uri = ''/autoscalers'',
           qs = [(''autoscaler'', Str ''autoscaler-name'')], json = Ref 14\<rparr>
          (SetMetadataResponse (Ref 10) (Given (Ref 12)))]
   \<and> resume (DeleteResponse (Ref 10) (Given (Ref 12))) (Str ''Not Found'') (Ref 15)
       example_state =
       Normal () (emit (Invoke (Ref 12) [Str ''Not Found'', Null, Ref 15]) example_state)
   \<and> resume (SetMetadataResponse (Ref 10) (Given (Ref 12))) (Str ''Not Found'') Undefined
       example_state =
       Normal () (emit (Invoke (Ref 12) [Str ''Not Found'', Null, Undefined]) example_state)
   \<and> heap (emit (Invoke (Ref 12) [Str ''Not Found'', Null, Ref 15]) example_state) =
       heap example_state
   \<and> next_addr (emit (Invoke (Ref 12) [Str ''Not Found'', Null, Ref 15]) example_state) = 16"
proof -
  have h1: "get_own example_state 11 ''zone'' = Ref 10" by (simp add: example_defs)
  have h2: "kind (heap example_state 10) = ZoneObject" by (simp add: example_defs)
  have h3: "11 < next_addr example_state" by (simp add: example_defs)
  have h4: "10 < next_addr example_state" by (simp add: example_defs)
  have h5: "(\<exists>m. Ref 14 = Ref m \<and> \<not> callable (kind (heap example_state m)))
      \<or> \<not> truthy (Ref 14)" by (simp add: example_defs)
  have h6: "truthy (Str ''Not Found'')" by simp
  have h7: "callable (kind (heap example_state 12))" by (simp add: example_defs)
  have n: "next_addr example_state = 16" "trace example_state = []"
    "get_own example_state 11 ''name'' = Str ''autoscaler-name''"
    by (simp_all add: example_defs)
  from failure_callback [OF h1 h2 h3 h4 h5 h6 h7, of "Ref 15"]
    failure_callback [OF h1 h2 h3 h4 h5 h6 h7, of Undefined]
  show ?thesis by (simp add: n)
qed

section \<open>Calls without a callback\<close>

text \<open>
  C5: for every call to delete or setMetadata with the callback argument omitted, and
  for both success and failure transport outcomes, no exception is thrown: the no-op
  function takes the place of the missing callback in the response function each
  method registers, and the methods themselves never throw for a failure of the
  request. The handle and its zone \<open>z\<close> are objects of the store, \<^verbatim>\<open>metadata\<close> is
  a metadata object as documented (an object that is not a function, or omitted), and
  a successful outcome carries a response object.
\<close>

theorem omitted_callback_never_throws:
  assumes "\<not> truthy callback"
      and "get_own s0 this ''zone'' = Ref z"
      and "kind (heap s0 z) = ZoneObject"
      and "this < next_addr s0" and "z < next_addr s0"
      and "(\<exists>m. metadata = Ref m \<and> \<not> callable (kind (heap s0 m))) \<or> \<not> truthy metadata"
      and "truthy err \<or> ((\<exists>r. resp = Ref r) \<and> kind (heap s z) = ZoneObject)"
  shows "or_noop callback = Noop
       \<and> \<not> throws (Autoscaler_delete this callback s0)
       \<and> \<not> throws (Autoscaler_setMetadata this metadata callback s0)
       \<and> trace (state_of (Autoscaler_delete this callback s0)) =
           trace s0 @ [ServiceObjectDelete this (DeleteResponse (Ref z) Noop)]
       \<and> trace (state_of (Autoscaler_setMetadata this metadata callback s0)) =
           trace s0 @ [ZoneRequest z
              \<lparr>method = ''PATCH'', uri = ''/autoscalers'',
               qs = [(''autoscaler'', get_own s0 this ''name'')],
               json = (if truthy metadata then metadata else Ref (next_addr s0))\<rparr>
              (SetMetadataResponse (Ref z) Noop)]
       \<and> \<not> throws (resume (DeleteResponse (Ref z) Noop) err resp s)
       \<and> \<not> throws (resume (SetMetadataResponse (Ref z) Noop) err resp s)
       \<and> trace (state_of (resume (DeleteResponse (Ref z) Noop) err resp s)) = trace s
       \<and> trace (state_of (resume (SetMetadataResponse (Ref z) Noop) err resp s)) = trace s"
proof -
  have noop: "or_noop callback = Noop" using assms(1) by (simp add: or_noop_def)
  have del: "Autoscaler_delete this callback s0 =
      Normal () (emit (ServiceObjectDelete this (DeleteResponse (Ref z) Noop)) s0)"
    using delete_registers [of this callback s0] assms(2) noop by simp
  have set: "\<not> throws (Autoscaler_setMetadata this metadata callback s0)
       \<and> trace (state_of (Autoscaler_setMetadata this metadata callback s0)) =
           trace s0 @ [ZoneRequest z
              \<lparr>method = ''PATCH'', uri = ''/autoscalers'',
               qs = [(''autoscaler'', get_own s0 this ''name'')],
               json = (if truthy metadata then metadata else Ref (next_addr s0))\<rparr>
              (SetMetadataResponse (Ref z) Noop)]"
    using setMetadata_registers [OF assms(2-6), of callback] noop by simp
  have resp: "\<not> throws (resume (DeleteResponse (Ref z) Noop) err resp s)
       \<and> \<not> throws (resume (SetMetadataResponse (Ref z) Noop) err resp s)
       \<and> trace (state_of (resume (DeleteResponse (Ref z) Noop) err resp s)) = trace s
       \<and> trace (state_of (resume (SetMetadataResponse (Ref z) Noop) err resp s)) = trace s"
  proof (cases "truthy err")
    case True
    then show ?thesis
      by (simp add: delete_response_failure setMetadata_response_failure)
  next
    case False
    with assms(7) obtain r where r: "resp = Ref r" and z: "kind (heap s z) = ZoneObject"
      by blast
    show ?thesis
      unfolding r
      by (simp add: delete_response_success [OF False z]
          setMetadata_response_success [OF False z] store_simps)
  qed
  from noop del set resp show ?thesis by (simp add: store_simps)
qed

theorem omitted_callback_never_throws_witness:
  "\<not> truthy Undefined
   \<and> get_own example_state 11 ''zone'' = Ref 10
   \<and> kind (heap example_state 10) = ZoneObject
   \<and> 11 < next_addr example_state \<and> 10 < next_addr example_state
   \<and> \<not> callable (kind (heap example_state 14))
   \<and> \<not> throws (Autoscaler_delete 11 Undefined example_state)
   \<and> \<not> throws (Autoscaler_setMetadata 11 (Ref 14) Undefined example_state)
   \<and> \<not> throws (Autoscaler_setMetadata 11 Undefined Undefined example_state)
   \<and> trace (state_of (Autoscaler_delete 11 Undefined example_state)) =
       [ServiceObjectDelete 11 (DeleteResponse (Ref 10) Noop)]
   \<and> \<not> throws (resume (DeleteResponse (Ref 10) Noop) Null (Ref 13) example_state)
   \<and> \<not> throws (resume (SetMetadataResponse (Ref 10) Noop) Null (Ref 13) example_state)
   \<and> \<not> throws (resume (DeleteResponse (Ref 10) Noop) (Str ''Not Found'') Undefined example_state)
   \<and> \<not> throws (resume (SetMetadataResponse (Ref 10) Noop) (Str ''Not Found'') Undefined
         example_state)"
proof -
  have h0: "\<not> truthy Undefined" by simp
  have h1: "get_own example_state 11 ''zone'' = Ref 10" by (simp add: example_defs)
  have h2: "kind (heap example_state 10) = ZoneObject" by (simp add: example_defs)
  have h3: "11 < next_addr example_state" by (simp add: example_defs)
  have h4: "10 < next_addr example_state" by (simp add: example_defs)
  have h5: "(\<exists>m. Ref 14 = Ref m \<and> \<not> callable (kind (heap example_state m)))
      \<or> \<not> truthy (Ref 14)" by (simp add: example_defs)
  have h6: "(\<exists>m. Undefined = Ref m \<and> \<not> callable (kind (heap example_state m)))
      \<or> \<not> truthy Undefined" by simp
  have nc: "\<not> callable (kind (heap example_state 14))" by (simp add: example_defs)
  have o1: "truthy Null \<or> ((\<exists>r. Ref 13 = Ref r) \<and> kind (heap example_state 10) = ZoneObject)"
    using h2 by simp
  have o2: "truthy (Str ''Not Found'')
      \<or> ((\<exists>r. Undefined = Ref r) \<and> kind (heap example_state 10) = ZoneObject)"
    by simp
  have n: "trace example_state = []" by (simp add: example_defs)
  from omitted_callback_never_throws [OF h0 h1 h2 h3 h4 h5 o1]
    omitted_callback_never_throws [OF h0 h1 h2 h3 h4 h6 o2] h0 h1 h2 h3 h4 nc
  show ?thesis by (simp add: n)
qed

section \<open>A response without a name\<close>

text \<open>
  C6: when a successful delete or setMetadata response lacks the \<^verbatim>\<open>name\<close> field, nothing
  is validated: \<^verbatim>\<open>resp.name\<close> is \<^verbatim>\<open>undefined\<close> and goes to
  \<^verbatim>\<open>zone.operation\<close> as it is, the callback the caller gave to the method is still
  invoked with a \<^verbatim>\<open>null\<close> error and an Operation handle, and the identifier of
  that handle is \<^verbatim>\<open>undefined\<close>; no error is reported.
\<close>

theorem missing_name_not_validated:
  assumes "get_own s0 this ''zone'' = Ref z"
      and "kind (heap s0 z) = ZoneObject"
      and "this < next_addr s0" and "z < next_addr s0"
      and "(\<exists>m. metadata = Ref m \<and> \<not> callable (kind (heap s0 m))) \<or> \<not> truthy metadata"
      and "\<not> truthy err"
      and "props (heap s r) ''name'' = None"
      and "kind (heap s z) = ZoneObject"
      and "callable (kind (heap s f))"
      and "f < next_addr s"
  shows "trace (state_of (Autoscaler_delete this (Ref f) s0)) =
           trace s0 @ [ServiceObjectDelete this (DeleteResponse (Ref z) (Given (Ref f)))]
       \<and> trace (state_of (Autoscaler_setMetadata this metadata (Ref f) s0)) =
           trace s0 @ [ZoneRequest z
              \<lparr>method = ''PATCH'', uri = ''/autoscalers'',
               qs = [(''autoscaler'', get_own s0 this ''name'')],
               json = (if truthy metadata then metadata else Ref (next_addr s0))\<rparr>
              (SetMetadataResponse (Ref z) (Given (Ref f)))]
       \<and> get_prop s (Ref r) ''name'' = Inr Undefined
       \<and> value_of (Zone_operation (Ref z) Undefined s) = Some (Ref (next_addr s))
       \<and> resume (DeleteResponse (Ref z) (Given (Ref f))) err (Ref r) s =
           Normal () (emit (Invoke (Ref f) [Null, Ref (next_addr s), Ref r])
             (put_own (next_addr s) ''metadata'' (Ref r)
                (state_of (Zone_operation (Ref z) Undefined s))))
       \<and> resume (SetMetadataResponse (Ref z) (Given (Ref f))) err (Ref r) s =
           Normal () (emit (Invoke (Ref f) [Null, Ref (next_addr s), Ref r])
             (put_own (next_addr s) ''metadata'' (Ref r)
                (state_of (Zone_operation (Ref z) Undefined s))))
       \<and> kind (heap (put_own (next_addr s) ''metadata'' (Ref r)
                  (state_of (Zone_operation (Ref z) Undefined s))) (next_addr s)) =
           OperationObject
       \<and> props (heap (put_own (next_addr s) ''metadata'' (Ref r)
                  (state_of (Zone_operation (Ref z) Undefined s))) (next_addr s)) ''name'' =
           Some Undefined"
proof -
  have reg: "trace (state_of (Autoscaler_delete this (Ref f) s0)) =
           trace s0 @ [ServiceObjectDelete this (DeleteResponse (Ref z) (Given (Ref f)))]
       \<and> trace (state_of (Autoscaler_setMetadata this metadata (Ref f) s0)) =
           trace s0 @ [ZoneRequest z
              \<lparr>method = ''PATCH'', uri = ''/autoscalers'',
               qs = [(''autoscaler'', get_own s0 this ''name'')],
               json = (if truthy metadata then metadata else Ref (next_addr s0))\<rparr>
              (SetMetadataResponse (Ref z) (Given (Ref f)))]"
    using delete_registers [of this "Ref f" s0] setMetadata_registers [OF assms(1-5), of "Ref f"]
      assms(1)
    by (simp add: or_noop_def store_simps)
  have name: "get_own s r ''name'' = Undefined" using assms(7) by (simp add: get_own_def)
  have op: "Zone_operation (Ref z) Undefined s =
      Normal (Ref (next_addr s))
        (snd (alloc \<lparr>kind = OperationObject,
                       props = [''name'' \<mapsto> Undefined, ''parent'' \<mapsto> Ref z]\<rparr> s))"
    by (rule Zone_operation_zone [OF assms(8)])
  from reg name response_success_by_operation [OF assms(6,8,9,10), of r]
  show ?thesis
    by (simp add: op store_simps del: Zone_operation.simps)
qed

theorem missing_name_not_validated_witness:
  "trace (state_of (Autoscaler_delete 11 (Ref 12) example_state)) =
       [ServiceObjectDelete 11 (DeleteResponse (Ref 10) (Given (Ref 12)))]
   \<and> trace (state_of (Autoscaler_setMetadata 11 (Ref 14) (Ref 12) example_state)) =
       [ZoneRequest 10
          \<lparr>method = ''PATCH'', uri = ''/autoscalers'',
           qs = [(''autoscaler'', Str ''autoscaler-name'')], json = Ref 14\<rparr>
          (SetMetadataResponse (Ref 10) (Given (Ref 12)))]
   \<and> props (heap example_state 15) ''name'' = None
   \<and> \<not> throws (resume (DeleteResponse (Ref 10) (Given (Ref 12))) Null (Ref 15) example_state)
   \<and> trace (state_of (resume (DeleteResponse (Ref 10) (Given (Ref 12))) Null (Ref 15)
       example_state)) = [Invoke (Ref 12) [Null, Ref 16, Ref 15]]
   \<and> trace (state_of (resume (SetMetadataResponse (Ref 10) (Given (Ref 12))) Null (Ref 15)
       example_state)) = [Invoke (Ref 12) [Null, Ref 16, Ref 15]]
   \<and> props (heap (state_of (resume (DeleteResponse (Ref 10) (Given (Ref 12))) Null (Ref 15)
       example_state)) 16) ''name'' = Some Undefined
   \<and> props (heap (state_of (resume (SetMetadataResponse (Ref 10) (Given (Ref 12))) Null (Ref 15)
       example_state)) 16) ''name'' = Some Undefined"
proof -
  have h1: "get_own example_state 11 ''zone'' = Ref 10" by (simp add: example_defs)
  have h2: "kind (heap example_state 10) = ZoneObject" by (simp add: example_defs)
  have h3: "11 < next_addr example_state" by (simp add: example_defs)
  have h4: "10 < next_addr example_state" by (simp add: example_defs)
  have h5: "(\<exists>m. Ref 14 = Ref m \<and> \<not> callable (kind (heap example_state m)))
      \<or> \<not> truthy (Ref 14)" by (simp add: example_defs)
  have h6: "\<not> truthy Null" by simp
  have h7: "props (heap example_state 15) ''name'' = None" by (simp add: example_defs)
  have h9: "callable (kind (heap example_state 12))" by (simp add: example_defs)
  have h10: "12 < next_addr example_state" by (simp add: example_defs)
  have n: "next_addr example_state = 16" "trace example_state = []"
    "get_own example_state 11 ''name'' = Str ''autoscaler-name''"
    by (simp_all add: example_defs)
  have op: "Zone_operation (Ref 10) Undefined example_state =
      Normal (Ref 16)
        (snd (alloc \<lparr>kind = OperationObject,
                       props = [''name'' \<mapsto> Undefined, ''parent'' \<mapsto> Ref 10]\<rparr>
                example_state))"
    using Zone_operation_zone [OF h2, of Undefined] by (simp add: n)
  from missing_name_not_validated [OF h1 h2 h3 h4 h5 h6 h7 h2 h9 h10] h7
  show ?thesis by (simp add: n op store_simps del: Zone_operation.simps)
qed

section \<open>Construction\<close>

text \<open>
  C8: for every zone handle and name, constructing an Autoscaler performs no network
  call (nothing is added to the trace) and yields a handle configured with base path
  \<^verbatim>\<open>/autoscalers\<close>, identifier equal to the name, a capability table declaring
  \<^verbatim>\<open>create\<close>, \<^verbatim>\<open>exists\<close>, \<^verbatim>\<open>get\<close> and \<^verbatim>\<open>getMetadata\<close> as supported, and
  the zone's \<^verbatim>\<open>createAutoscaler\<close> bound to the zone as the create delegate. The
  objects the store already held are untouched.
\<close>

theorem constructor_configures_handle:
  assumes "kind (heap s z) = ZoneObject" and "z < next_addr s"
  shows "value_of (Autoscaler (Ref z) name s) = Some (Ref (next_addr s))
     \<and> trace (state_of (Autoscaler (Ref z) name s)) = trace s
     \<and> kind (heap (state_of (Autoscaler (Ref z) name s)) (next_addr s)) = AutoscalerObject
     \<and> get_own (state_of (Autoscaler (Ref z) name s)) (next_addr s) ''baseUrl'' =
         Str ''/autoscalers''
     \<and> get_own (state_of (Autoscaler (Ref z) name s)) (next_addr s) ''id'' = name
     \<and> get_own (state_of (Autoscaler (Ref z) name s)) (next_addr s) ''name'' = name
     \<and> get_own (state_of (Autoscaler (Ref z) name s)) (next_addr s) ''zone'' = Ref z
     \<and> get_own (state_of (Autoscaler (Ref z) name s)) (next_addr s) ''parent'' = Ref z
     \<and> get_own (state_of (Autoscaler (Ref z) name s)) (next_addr s) ''methods'' =
         Ref (Suc (next_addr s))
     \<and> heap (state_of (Autoscaler (Ref z) name s)) (Suc (next_addr s)) =
         \<lparr>kind = PlainObject,
          props = [''create'' \<mapsto> Bool True, ''exists'' \<mapsto> Bool True,
                   ''get'' \<mapsto> Bool True, ''getMetadata'' \<mapsto> Bool True]\<rparr>
     \<and> get_own (state_of (Autoscaler (Ref z) name s)) (next_addr s) ''createMethod'' =
         Ref (Suc (Suc (next_addr s)))
     \<and> kind (heap (state_of (Autoscaler (Ref z) name s)) (Suc (Suc (next_addr s)))) =
         BoundFunction z ''createAutoscaler''
     \<and> (\<forall>a. a < next_addr s \<longrightarrow> heap (state_of (Autoscaler (Ref z) name s)) a = heap s a)"
  unfolding Autoscaler_zone [OF assms]
  by (simp add: ServiceObject_def store_simps heap_put_own)

theorem constructor_configures_handle_witness:
  "kind (heap example_state 10) = ZoneObject \<and> 10 < next_addr example_state
   \<and> value_of (Autoscaler (Ref 10) (Str ''as-2'') example_state) = Some (Ref 16)
   \<and> trace (state_of (Autoscaler (Ref 10) (Str ''as-2'') example_state)) = []
   \<and> get_own (state_of (Autoscaler (Ref 10) (Str ''as-2'') example_state)) 16 ''baseUrl'' =
       Str ''/autoscalers''
   \<and> get_own (state_of (Autoscaler (Ref 10) (Str ''as-2'') example_state)) 16 ''id'' =
       Str ''as-2''
   \<and> get_own (state_of (Autoscaler (Ref 10) (Str ''as-2'') example_state)) 16 ''methods'' =
       Ref 17
   \<and> get_own (state_of (Autoscaler (Ref 10) (Str ''as-2'') example_state)) 16 ''createMethod'' =
       Ref 18
   \<and> kind (heap (state_of (Autoscaler (Ref 10) (Str ''as-2'') example_state)) 18) =
       BoundFunction 10 ''createAutoscaler''
   \<and> heap (state_of (Autoscaler (Ref 10) (Str ''as-2'') example_state)) 11 =
       heap example_state 11"
proof -
  have h1: "kind (heap example_state 10) = ZoneObject" by (simp add: example_defs)
  have h2: "10 < next_addr example_state" by (simp add: example_defs)
  have n: "next_addr example_state = 16" "trace example_state = []"
    by (simp_all add: example_defs)
  from constructor_configures_handle [OF h1 h2, of "Str ''as-2''"] h1 h2
  show ?thesis by (simp add: n)
qed

section \<open>The caller's metadata object\<close>

text \<open>
  C9: setMetadata mutates the caller-supplied metadata object in place: \<^verbatim>\<open>name\<close> and
  \<^verbatim>\<open>zone\<close> are written onto the very object passed in (no object is made), that
  same object is sent as the request body, and no other property of the caller's object
  is modified. Nor is any other object of the store. The caller's object is a metadata
  object, not a function (on a function the write of \<^verbatim>\<open>name\<close> throws).
\<close>

theorem setMetadata_writes_in_place:
  assumes "get_own s this ''zone'' = Ref z"
      and "kind (heap s z) = ZoneObject"
      and "\<not> callable (kind (heap s m))"
  shows "\<not> throws (Autoscaler_setMetadata this (Ref m) callback s)
     \<and> trace (state_of (Autoscaler_setMetadata this (Ref m) callback s)) =
         trace s @ [ZoneRequest z
            \<lparr>method = ''PATCH'', uri = ''/autoscalers'',
             qs = [(''autoscaler'', get_own s this ''name'')], json = Ref m\<rparr>
            (SetMetadataResponse (Ref z) (or_noop callback))]
     \<and> next_addr (state_of (Autoscaler_setMetadata this (Ref m) callback s)) = next_addr s
     \<and> kind (heap (state_of (Autoscaler_setMetadata this (Ref m) callback s)) m) = kind (heap s m)
     \<and> props (heap (state_of (Autoscaler_setMetadata this (Ref m) callback s)) m) =
         (props (heap s m))
           (''name'' \<mapsto> get_own s this ''name'',
            ''zone'' \<mapsto> (if m = z then get_own s this ''name'' else get_own s z ''name''))
     \<and> (\<forall>key. key \<noteq> ''name'' \<and> key \<noteq> ''zone'' \<longrightarrow>
          props (heap (state_of (Autoscaler_setMetadata this (Ref m) callback s)) m) key =
          props (heap s m) key)
     \<and> (\<forall>a. a \<noteq> m \<longrightarrow>
          heap (state_of (Autoscaler_setMetadata this (Ref m) callback s)) a = heap s a)"
  unfolding setMetadata_object [OF assms]
  by (simp add: store_simps heap_put_own)

theorem setMetadata_writes_in_place_witness:
  "get_own example_state 11 ''zone'' = Ref 10
   \<and> kind (heap example_state 10) = ZoneObject
   \<and> \<not> callable (kind (heap example_state 14))
   \<and> trace (state_of (Autoscaler_setMetadata 11 (Ref 14) (Ref 12) example_state)) =
       [ZoneRequest 10
          \<lparr>method = ''PATCH'', uri = ''/autoscalers'',
           qs = [(''autoscaler'', Str ''autoscaler-name'')], json = Ref 14\<rparr>
          (SetMetadataResponse (Ref 10) (Given (Ref 12)))]
   \<and> next_addr (state_of (Autoscaler_setMetadata 11 (Ref 14) (Ref 12) example_state)) = 16
   \<and> props (heap (state_of (Autoscaler_setMetadata 11 (Ref 14) (Ref 12) example_state)) 14) =
       [''description'' \<mapsto> Str ''x'', ''name'' \<mapsto> Str ''autoscaler-name'',
        ''zone'' \<mapsto> Str ''us-central1-a'']
   \<and> props (heap (state_of (Autoscaler_setMetadata 11 (Ref 14) (Ref 12) example_state)) 14)
       ''description'' = Some (Str ''x'')
   \<and> heap (state_of (Autoscaler_setMetadata 11 (Ref 14) (Ref 12) example_state)) 11 =
       heap example_state 11"
proof -
  have h1: "get_own example_state 11 ''zone'' = Ref 10" by (simp add: example_defs)
  have h2: "kind (heap example_state 10) = ZoneObject" by (simp add: example_defs)
  have h3: "\<not> callable (kind (heap example_state 14))" by (simp add: example_defs)
  have n: "next_addr example_state = 16" "trace example_state = []"
    "get_own example_state 11 ''name'' = Str ''autoscaler-name''"
    "get_own example_state 10 ''name'' = Str ''us-central1-a''"
    "props (heap example_state 14) =
       [''description'' \<mapsto> Str ''x'', ''name'' \<mapsto> Str ''other'']"
    by (simp_all add: example_defs)
  from setMetadata_writes_in_place [OF h1 h2 h3, of "Ref 12"] h1 h2 h3
  show ?thesis by (simp add: n or_noop_def)
qed

section \<open>The handle's own metadata\<close>

text \<open>
  C10: neither delete nor setMetadata ever writes the handle's own \<^verbatim>\<open>metadata\<close>
  field, on success or on failure: the response becomes the metadata of the Operation
  handle just made, and the metadata stored on the Autoscaler handle is what it was.
  This holds for the two methods and for the two response functions, whatever the
  arguments and the outcome, also when the call throws; delete and the response
  functions leave the whole handle as it was.
\<close>

theorem handle_metadata_untouched:
  assumes "this < next_addr s"
  shows "props (heap (state_of (Autoscaler_delete this callback s)) this) ''metadata'' =
           props (heap s this) ''metadata''
       \<and> props (heap (state_of (Autoscaler_setMetadata this metadata callback s)) this)
           ''metadata'' = props (heap s this) ''metadata''
       \<and> props (heap (state_of (resume k err resp s)) this) ''metadata'' =
           props (heap s this) ''metadata''
       \<and> heap (state_of (Autoscaler_delete this callback s)) this = heap s this
       \<and> heap (state_of (resume k err resp s)) this = heap s this"
  using assms by (simp add: delete_frame setMetadata_frame resume_frame)

theorem handle_metadata_untouched_witness:
  "11 < next_addr example_state
   \<and> props (heap (state_of (Autoscaler_delete 11 (Ref 12) example_state)) 11) ''metadata'' = None
   \<and> props (heap (state_of (Autoscaler_setMetadata 11 (Ref 14) (Ref 12) example_state)) 11)
       ''metadata'' = None
   \<and> props (heap (state_of (resume (DeleteResponse (Ref 10) (Given (Ref 12))) Null (Ref 13)
       example_state)) 11) ''metadata'' = None
   \<and> props (heap (state_of (resume (SetMetadataResponse (Ref 10) (Given (Ref 12)))
       (Str ''Not Found'') Undefined example_state)) 11) ''metadata'' = None"
proof -
  have h1: "11 < next_addr example_state" by (simp add: example_defs)
  have n: "props (heap example_state 11) ''metadata'' = None" by (simp add: example_defs)
  from handle_metadata_untouched [OF h1, of "Ref 12" "Ref 14"
      "DeleteResponse (Ref 10) (Given (Ref 12))" Null "Ref 13"]
    handle_metadata_untouched [OF h1, of "Ref 12" "Ref 14"
      "SetMetadataResponse (Ref 10) (Given (Ref 12))" "Str ''Not Found''" Undefined] h1
  show ?thesis by (simp add: n)
qed

section \<open>The handle's name and zone\<close>

text \<open>
  C7 as stated, that no operation on a handle ever reassigns its \<^verbatim>\<open>zone\<close> or
  \<^verbatim>\<open>name\<close>, fails when the handle itself is passed to setMetadata as the metadata
  object: line 216 then writes the zone's name over the handle's \<^verbatim>\<open>zone\<close>.
\<close>

theorem setMetadata_given_the_handle_reassigns_zone:
  "props (heap example_state 11) ''zone'' = Some (Ref 10)
   \<and> props (heap (perform_all 11 [SetMetadata (Ref 11) (Ref 12)] example_state) 11) ''zone'' =
       Some (Str ''us-central1-a'')"
proof -
  have h1: "get_own example_state 11 ''zone'' = Ref 10" by (simp add: example_defs)
  have h2: "kind (heap example_state 10) = ZoneObject" by (simp add: example_defs)
  have h3: "\<not> callable (kind (heap example_state 11))" by (simp add: example_defs)
  have n: "get_own example_state 10 ''name'' = Str ''us-central1-a''"
    "props (heap example_state 11) ''zone'' = Some (Ref 10)"
    by (simp_all add: example_defs)
  show ?thesis
    unfolding perform_all.simps perform.simps setMetadata_object [OF h1 h2 h3]
    by (simp add: store_simps n)
qed

text \<open>
  C7, amended: for every Autoscaler handle and every sequence of operations on it
  (delete, setMetadata, the outcomes handed to their response functions, and the
  outcome of the generic \<^verbatim>\<open>getMetadata\<close>), provided the handle itself is never the
  metadata object given to setMetadata, the handle's \<^verbatim>\<open>zone\<close> and \<^verbatim>\<open>name\<close> are
  never reassigned; of the handle's fields only \<^verbatim>\<open>metadata\<close> may change.
\<close>

theorem handle_name_and_zone_preserved:
  assumes "this < next_addr s"
      and "\<forall>c \<in> set calls. \<not> passes_handle this c"
  shows "kind (heap (perform_all this calls s) this) = kind (heap s this)
       \<and> (\<forall>key. key \<noteq> ''metadata'' \<longrightarrow>
            props (heap (perform_all this calls s) this) key = props (heap s this) key)"
  using assms
proof (induction calls arbitrary: s)
  case Nil
  then show ?case by simp
next
  case (Cons c calls)
  from Cons.prems have c: "\<not> passes_handle this c"
    and rest: "\<forall>c \<in> set calls. \<not> passes_handle this c" by simp_all
  from next_addr_perform [of s this c] Cons.prems(1)
  have lt: "this < next_addr (perform this c s)" by simp
  from Cons.IH [OF lt rest] perform_preserves [OF Cons.prems(1) c]
  show ?case by simp
qed

theorem handle_name_and_zone_preserved_witness:
  "11 < next_addr example_state
   \<and> \<not> passes_handle 11 (Delete (Ref 12))
   \<and> \<not> passes_handle 11 (SetMetadata (Ref 14) (Ref 12))
   \<and> \<not> passes_handle 11 (Outcome (SetMetadataResponse (Ref 10) (Given (Ref 12))) Null (Ref 13))
   \<and> \<not> passes_handle 11 (GetMetadataOutcome (Given (Ref 12)) Null (Ref 13))
   \<and> props (heap (perform_all 11
        [Delete (Ref 12), SetMetadata (Ref 14) (Ref 12),
         Outcome (SetMetadataResponse (Ref 10) (Given (Ref 12))) Null (Ref 13),
         GetMetadataOutcome (Given (Ref 12)) Null (Ref 13)] example_state) 11) ''zone'' =
       Some (Ref 10)
   \<and> props (heap (perform_all 11
        [Delete (Ref 12), SetMetadata (Ref 14) (Ref 12),
         Outcome (SetMetadataResponse (Ref 10) (Given (Ref 12))) Null (Ref 13),
         GetMetadataOutcome (Given (Ref 12)) Null (Ref 13)] example_state) 11) ''name'' =
       Some (Str ''autoscaler-name'')"
proof -
  have h1: "11 < next_addr example_state" by (simp add: example_defs)
  have h2: "\<forall>c \<in> set [Delete (Ref 12), SetMetadata (Ref 14) (Ref 12),
                   Outcome (SetMetadataResponse (Ref 10) (Given (Ref 12))) Null (Ref 13),
                   GetMetadataOutcome (Given (Ref 12)) Null (Ref 13)].
        \<not> passes_handle 11 c" by simp
  have n: "props (heap example_state 11) ''zone'' = Some (Ref 10)"
    "props (heap example_state 11) ''name'' = Some (Str ''autoscaler-name'')"
    by (simp_all add: example_defs)
  from handle_name_and_zone_preserved [OF h1 h2] n h1 h2
  show ?thesis by simp
qed

end
